theory Spec2Isabelle
  imports Main
begin

section \<open>The statement tree\<close>

text \<open>
  The rule \<^verbatim>\<open>promise-constructor-exactly-one-callback\<close> works on the ESTree syntax
  tree that the host's parser hands to it. Every node is an object with a \<^verbatim>\<open>type\<close> tag
  and child nodes; the three sorts of node the rule distinguishes are expressions,
  statements and the cases of a switch. Node kinds the rule never looks at by name are
  kept with their tag and their child nodes (\<open>OtherExpression\<close>, \<open>OtherStatement\<close>):
  a variable declaration, a labelled statement, a for-in loop and so on.

  An arrow function has a block body (\<open>ArrowFunctionExpression\<close>) or an expression
  body (\<open>ArrowFunctionExpr\<close>). The parameters of a function are patterns, which may
  hold default-value expressions, so they are expressions here. A try statement keeps
  the statements of its block, the parameter and statements of its handler, and the
  statements of its finalizer.
\<close>

datatype expr =
    Identifier string
  | Literal string
  | CallExpression expr "expr list"
  | NewExpression expr "expr list"
  | FunctionExpression "expr list" "stmt list"
  | ArrowFunctionExpression "expr list" "stmt list"
  | ArrowFunctionExpr "expr list" expr
  | OtherExpression string "expr list"
and stmt =
    BlockStatement "stmt list"
  | ExpressionStatement expr
  | IfStatement expr stmt "stmt option"
  | TryStatement "stmt list" "(expr option \<times> stmt list) option" "stmt list option"
  | SwitchStatement expr "switch_case list"
  | ForStatement "expr option" "expr option" "expr option" stmt
  | WhileStatement expr stmt
  | DoWhileStatement stmt expr
  | ReturnStatement "expr option"
  | ThrowStatement expr
  | BreakStatement "expr option"
  | OtherStatement string "expr list" "stmt list"
and switch_case =
    SwitchCase (test: "expr option") (consequent: "stmt list")

text \<open>
  Where the rule stores "a node" without caring for its sort (the statements of a path,
  the node a report is attached to, the body of the executor) the model uses \<open>node\<close>.
\<close>

datatype node = ExprNode expr | StmtNode stmt | CaseNode switch_case

section \<open>Execution paths and issues\<close>

text \<open>
  The field \<^verbatim>\<open>terminated\<close> of a path is one of the strings \<^verbatim>\<open>'no'\<close>, \<^verbatim>\<open>'yes'\<close>
  (closed by a return) and \<^verbatim>\<open>'thrown'\<close>. Synthetic paths carry one extra boolean
  property (\<^verbatim>\<open>continuesAfterIf\<close>, \<^verbatim>\<open>isEmpty\<close>, \<^verbatim>\<open>isImplicitDefault\<close>,
  \<^verbatim>\<open>isLoopSkip\<close>), kept in \<open>flag\<close>.
\<close>

datatype terminal = No | Yes | Thrown

datatype path_flag = ContinuesAfterIf | IsEmpty | IsImplicitDefault | IsLoopSkip

record path =
  statements :: "node list"
  endNode :: "node option"
  terminated :: terminal
  flag :: "path_flag option"

datatype message_id = missingParameters | noCallback | multipleCallbacks | unreachableCallback

record issue =
  node :: node
  messageId :: message_id

section \<open>The path enumerator\<close>

text \<open>
  \<^verbatim>\<open>x.type === 'BlockStatement' ? x.body : [x]\<close>, which the rule writes out for the
  consequent and the alternate of an if and for the body of a loop.
\<close>

fun bodyStatements :: "stmt \<Rightarrow> stmt list" where
  "bodyStatements (BlockStatement body) = body"
| "bodyStatements s = [s]"

lemma size_bodyStatements: "size_list size (bodyStatements s) \<le> Suc (size s)"
  by (cases s) simp_all

lemma size_consequent: "size_list size (consequent c) < size c"
  by (cases c) simp

lemma size_consequent_in: "c \<in> set cs \<Longrightarrow> size_list size (consequent c) < size_list size cs"
  using size_consequent [of c] size_list_estimation' [of c cs "size c" size] by simp

lemma size_handler: "size_list size (snd h) \<le> size_prod (size_option size) (size_list size) h"
  by (cases h) simp

text \<open>
  \<^verbatim>\<open>analyzeBlock(statements, currentPath)\<close> walks the statements from left to right
  with the working path, a copy of \<^verbatim>\<open>currentPath\<close> to which each plain statement is
  pushed. The loop returns from inside at the first if, try, switch, loop, return or
  throw, so its state is the remaining statements and the working path: one equation
  per kind of first statement. The empty list is the end of the loop.

  The code collects paths with \<^verbatim>\<open>paths.push(...list)\<close>, which is list append here. A
  JavaScript engine bounds the number of arguments of one call, and the push throws a
  \<^verbatim>\<open>RangeError\<close> when the list spread into it is longer than that: the model is the
  code on bodies whose path lists stay within the engine's bound.
\<close>

function (sequential)
  analyzeBlock :: "stmt list \<Rightarrow> node list \<Rightarrow> path list" and
  analyzeIfStatement :: "stmt \<Rightarrow> node list \<Rightarrow> path list" and
  analyzeTryStatement :: "stmt \<Rightarrow> node list \<Rightarrow> path list" and
  analyzeSwitchStatement :: "stmt \<Rightarrow> node list \<Rightarrow> path list" and
  analyzeLoopStatement :: "stmt \<Rightarrow> node list \<Rightarrow> path list"
where
  "analyzeBlock [] workingPath =
     (if workingPath \<noteq> []
      then [\<lparr>statements = workingPath, endNode = Some (last workingPath),
             terminated = No, flag = None\<rparr>]
      else [])"
| "analyzeBlock (IfStatement c t e # remainingStatements) workingPath =
     concat (map (\<lambda>p. if terminated p = No \<and> remainingStatements \<noteq> []
                       then analyzeBlock remainingStatements (statements p) else [p])
                 (analyzeIfStatement (IfStatement c t e) workingPath))"
| "analyzeBlock (TryStatement b h f # remainingStatements) workingPath =
     concat (map (\<lambda>p. if terminated p = No \<and> remainingStatements \<noteq> []
                       then analyzeBlock remainingStatements (statements p) else [p])
                 (analyzeTryStatement (TryStatement b h f) workingPath))"
| "analyzeBlock (SwitchStatement d cs # remainingStatements) workingPath =
     concat (map (\<lambda>p. if terminated p = No \<and> remainingStatements \<noteq> []
                       then analyzeBlock remainingStatements (statements p) else [p])
                 (analyzeSwitchStatement (SwitchStatement d cs) workingPath))"
| "analyzeBlock (ForStatement i c u b # remainingStatements) workingPath =
     concat (map (\<lambda>p. if terminated p = No \<and> remainingStatements \<noteq> []
                       then analyzeBlock remainingStatements (statements p) else [p])
                 (analyzeLoopStatement (ForStatement i c u b) workingPath))"
| "analyzeBlock (WhileStatement c b # remainingStatements) workingPath =
     concat (map (\<lambda>p. if terminated p = No \<and> remainingStatements \<noteq> []
                       then analyzeBlock remainingStatements (statements p) else [p])
                 (analyzeLoopStatement (WhileStatement c b) workingPath))"
| "analyzeBlock (DoWhileStatement b c # remainingStatements) workingPath =
     concat (map (\<lambda>p. if terminated p = No \<and> remainingStatements \<noteq> []
                       then analyzeBlock remainingStatements (statements p) else [p])
                 (analyzeLoopStatement (DoWhileStatement b c) workingPath))"
| "analyzeBlock (ReturnStatement a # remainingStatements) workingPath =
     [\<lparr>statements = workingPath @ [StmtNode (ReturnStatement a)],
       endNode = Some (StmtNode (ReturnStatement a)), terminated = Yes, flag = None\<rparr>]"
| "analyzeBlock (ThrowStatement a # remainingStatements) workingPath =
     [\<lparr>statements = workingPath @ [StmtNode (ThrowStatement a)],
       endNode = Some (StmtNode (ThrowStatement a)), terminated = Thrown, flag = None\<rparr>]"
| "analyzeBlock (stmt # remainingStatements) workingPath =
     analyzeBlock remainingStatements (workingPath @ [StmtNode stmt])"

| "analyzeIfStatement (IfStatement c t e) currentPath =
     (let thenPaths = analyzeBlock (bodyStatements t) currentPath;
          elsePaths =
            (case e of
               Some alternate \<Rightarrow> analyzeBlock (bodyStatements alternate) currentPath
             | None \<Rightarrow> [\<lparr>statements = currentPath,
                          endNode = Some (StmtNode (IfStatement c t e)),
                          terminated = No, flag = Some ContinuesAfterIf\<rparr>])
      in thenPaths @ elsePaths)"

| "analyzeTryStatement (TryStatement b h f) currentPath =
     (let tryPaths = analyzeBlock b currentPath;
          catchPaths =
            (case h of
               Some handler \<Rightarrow> analyzeBlock (snd handler) currentPath
             | None \<Rightarrow> [])
      in catchPaths @
         (case f of
            Some finallyStatements \<Rightarrow>
              concat (map (\<lambda>tryPath.
                             if terminated tryPath = No
                             then analyzeBlock finallyStatements (statements tryPath)
                             else analyzeBlock finallyStatements (statements tryPath))
                          tryPaths)
          | None \<Rightarrow> tryPaths))"

| "analyzeSwitchStatement (SwitchStatement d cs) currentPath =
     concat (map (\<lambda>caseNode.
                    if consequent caseNode \<noteq> []
                    then analyzeBlock (consequent caseNode) currentPath
                    else [\<lparr>statements = currentPath, endNode = Some (CaseNode caseNode),
                           terminated = No, flag = Some IsEmpty\<rparr>])
                 cs) @
     (if \<not> list_ex (\<lambda>caseNode. test caseNode = None) cs
      then [\<lparr>statements = currentPath, endNode = Some (StmtNode (SwitchStatement d cs)),
             terminated = No, flag = Some IsImplicitDefault\<rparr>]
      else [])"

| "analyzeLoopStatement (ForStatement i c u b) currentPath =
     analyzeBlock (bodyStatements b) currentPath @
     [\<lparr>statements = currentPath, endNode = Some (StmtNode (ForStatement i c u b)),
       terminated = No, flag = Some IsLoopSkip\<rparr>]"
| "analyzeLoopStatement (WhileStatement c b) currentPath =
     analyzeBlock (bodyStatements b) currentPath @
     [\<lparr>statements = currentPath, endNode = Some (StmtNode (WhileStatement c b)),
       terminated = No, flag = Some IsLoopSkip\<rparr>]"
| "analyzeLoopStatement (DoWhileStatement b c) currentPath =
     analyzeBlock (bodyStatements b) currentPath @
     [\<lparr>statements = currentPath, endNode = Some (StmtNode (DoWhileStatement b c)),
       terminated = No, flag = Some IsLoopSkip\<rparr>]"
  by pat_completeness auto

text \<open>
  Every call goes to a strictly smaller statement list or statement: the measure is
  twice the size of the statements, plus one for the four functions that take a single
  statement (an if whose consequent is not a block hands the one-element list of that
  consequent to \<open>analyzeBlock\<close>).
\<close>

termination
  apply (relation "measure (case_sum
            (case_sum (\<lambda>(ss, c). 2 * size_list size ss) (\<lambda>(s, c). 2 * size s + 1))
            (case_sum (\<lambda>(s, c). 2 * size s + 1)
               (case_sum (\<lambda>(s, c). 2 * size s + 1) (\<lambda>(s, c). 2 * size s + 1))))")
  apply simp_all
  subgoal for c t e using size_bodyStatements [of t] by linarith
  subgoal for c t e currentPath x x2 using size_bodyStatements [of x2] by linarith
  subgoal for b h f currentPath x x2 using size_handler [of x2] by linarith
  subgoal for d cs x using size_consequent_in [of x cs] by linarith
  subgoal for i c u b using size_bodyStatements [of b] by linarith
  subgoal for c b using size_bodyStatements [of b] by linarith
  subgoal for b c using size_bodyStatements [of b] by linarith
  done

text \<open>
  \<^verbatim>\<open>findAllExecutionPaths(callbackBody)\<close>: the body of the executor is a block, or
  (for an arrow function) a single expression.
\<close>

fun findAllExecutionPaths :: "node \<Rightarrow> path list" where
  "findAllExecutionPaths (StmtNode (BlockStatement body)) = analyzeBlock body []"
| "findAllExecutionPaths callbackBody =
     [\<lparr>statements = [callbackBody], endNode = Some callbackBody, terminated = No, flag = None\<rparr>]"

section \<open>The callback counter\<close>

text \<open>
  \<^verbatim>\<open>countCallbacksInStatement\<close> runs the local function \<^verbatim>\<open>traverse\<close> over a node:
  it adds one for a call expression whose callee is an identifier named as one of the
  two parameters, and then visits every child node (every property but \<^verbatim>\<open>parent\<close>,
  \<^verbatim>\<open>range\<close> and \<^verbatim>\<open>loc\<close> that is a node or an array of nodes). The three functions
  below are \<^verbatim>\<open>traverse\<close> on the three sorts of node; each returns the number of
  increments it makes.
\<close>

fun
  traverse_expr :: "string \<Rightarrow> string \<Rightarrow> expr \<Rightarrow> nat" and
  traverse_stmt :: "string \<Rightarrow> string \<Rightarrow> stmt \<Rightarrow> nat" and
  traverse_case :: "string \<Rightarrow> string \<Rightarrow> switch_case \<Rightarrow> nat"
where
  "traverse_expr r j (Identifier n) = 0"
| "traverse_expr r j (Literal v) = 0"
| "traverse_expr r j (CallExpression callee args) =
     (case callee of
        Identifier callName \<Rightarrow> (if callName = r \<or> callName = j then 1 else 0)
      | _ \<Rightarrow> 0) +
     traverse_expr r j callee + sum_list (map (traverse_expr r j) args)"
| "traverse_expr r j (NewExpression callee args) =
     traverse_expr r j callee + sum_list (map (traverse_expr r j) args)"
| "traverse_expr r j (FunctionExpression params body) =
     sum_list (map (traverse_expr r j) params) + sum_list (map (traverse_stmt r j) body)"
| "traverse_expr r j (ArrowFunctionExpression params body) =
     sum_list (map (traverse_expr r j) params) + sum_list (map (traverse_stmt r j) body)"
| "traverse_expr r j (ArrowFunctionExpr params body) =
     sum_list (map (traverse_expr r j) params) + traverse_expr r j body"
| "traverse_expr r j (OtherExpression ty children) =
     sum_list (map (traverse_expr r j) children)"

| "traverse_stmt r j (BlockStatement body) = sum_list (map (traverse_stmt r j) body)"
| "traverse_stmt r j (ExpressionStatement e) = traverse_expr r j e"
| "traverse_stmt r j (IfStatement c t e) =
     traverse_expr r j c + traverse_stmt r j t +
     (case e of None \<Rightarrow> 0 | Some alternate \<Rightarrow> traverse_stmt r j alternate)"
| "traverse_stmt r j (TryStatement b h f) =
     sum_list (map (traverse_stmt r j) b) +
     (case h of
        None \<Rightarrow> 0
      | Some handler \<Rightarrow>
          (case fst handler of None \<Rightarrow> 0 | Some param \<Rightarrow> traverse_expr r j param) +
          sum_list (map (traverse_stmt r j) (snd handler))) +
     (case f of None \<Rightarrow> 0 | Some finalizer \<Rightarrow> sum_list (map (traverse_stmt r j) finalizer))"
| "traverse_stmt r j (SwitchStatement d cs) =
     traverse_expr r j d + sum_list (map (traverse_case r j) cs)"
| "traverse_stmt r j (ForStatement i c u b) =
     (case i of None \<Rightarrow> 0 | Some e \<Rightarrow> traverse_expr r j e) +
     (case c of None \<Rightarrow> 0 | Some e \<Rightarrow> traverse_expr r j e) +
     (case u of None \<Rightarrow> 0 | Some e \<Rightarrow> traverse_expr r j e) +
     traverse_stmt r j b"
| "traverse_stmt r j (WhileStatement c b) = traverse_expr r j c + traverse_stmt r j b"
| "traverse_stmt r j (DoWhileStatement b c) = traverse_stmt r j b + traverse_expr r j c"
| "traverse_stmt r j (ReturnStatement a) =
     (case a of None \<Rightarrow> 0 | Some e \<Rightarrow> traverse_expr r j e)"
| "traverse_stmt r j (ThrowStatement a) = traverse_expr r j a"
| "traverse_stmt r j (BreakStatement l) =
     (case l of None \<Rightarrow> 0 | Some e \<Rightarrow> traverse_expr r j e)"
| "traverse_stmt r j (OtherStatement ty es ss) =
     sum_list (map (traverse_expr r j) es) + sum_list (map (traverse_stmt r j) ss)"

| "traverse_case r j (SwitchCase t c) =
     (case t of None \<Rightarrow> 0 | Some e \<Rightarrow> traverse_expr r j e) +
     sum_list (map (traverse_stmt r j) c)"

fun countCallbacksInStatement :: "node \<Rightarrow> string \<Rightarrow> string \<Rightarrow> nat" where
  "countCallbacksInStatement (ExprNode e) resolveParam rejectParam =
     traverse_expr resolveParam rejectParam e"
| "countCallbacksInStatement (StmtNode s) resolveParam rejectParam =
     traverse_stmt resolveParam rejectParam s"
| "countCallbacksInStatement (CaseNode c) resolveParam rejectParam =
     traverse_case resolveParam rejectParam c"

definition countCallbacksInPath :: "path \<Rightarrow> string \<Rightarrow> string \<Rightarrow> nat" where
  "countCallbacksInPath p resolveParam rejectParam =
     sum_list (map (\<lambda>stmt. countCallbacksInStatement stmt resolveParam rejectParam)
                   (statements p))"

section \<open>Reporting\<close>

text \<open>
  \<^verbatim>\<open>analyzeExecutionPaths\<close> pushes, for each path in turn, at most one issue:
  \<open>pathIssues\<close> is the body of that loop. An issue is attached to
  \<^verbatim>\<open>path.endNode || callbackBody\<close>.
\<close>

definition pathIssues :: "node \<Rightarrow> string \<Rightarrow> string \<Rightarrow> path \<Rightarrow> issue list" where
  "pathIssues callbackBody resolveParam rejectParam p =
     (let callbackCount = countCallbacksInPath p resolveParam rejectParam;
          anchor = (case endNode p of Some n \<Rightarrow> n | None \<Rightarrow> callbackBody)
      in if callbackCount = 0 then [\<lparr>node = anchor, messageId = noCallback\<rparr>]
         else if callbackCount > 1 then [\<lparr>node = anchor, messageId = multipleCallbacks\<rparr>]
         else [])"

definition analyzeExecutionPaths :: "node \<Rightarrow> string \<Rightarrow> string \<Rightarrow> issue list" where
  "analyzeExecutionPaths callbackBody resolveParam rejectParam =
     concat (map (pathIssues callbackBody resolveParam rejectParam)
                 (findAllExecutionPaths callbackBody))"

section \<open>Verdicts\<close>

text \<open>
  The specification speaks of one verdict per path, \<open>OK\<close>, \<open>NoCallback\<close> or
  \<open>MultipleCallbacks\<close>, given by the count: zero, one, more than one. \<open>classify\<close>
  is that rule, in the specification's words. The rule itself has no value for
  \<open>OK\<close>: it reports nothing for such a path. \<open>verdictOf\<close> reads what the rule
  reported for one path as a verdict: no issue is \<open>OK\<close>, exactly one issue with
  message \<^verbatim>\<open>noCallback\<close> or \<^verbatim>\<open>multipleCallbacks\<close> is that verdict, and anything else
  is no verdict.
\<close>

datatype verdict_kind = OK | NoCallback | MultipleCallbacks

definition classify :: "nat \<Rightarrow> verdict_kind" where
  "classify count =
     (if count = 0 then NoCallback else if count = 1 then OK else MultipleCallbacks)"

fun verdictOf :: "issue list \<Rightarrow> verdict_kind option" where
  "verdictOf [] = Some OK"
| "verdictOf [i] =
     (if messageId i = noCallback then Some NoCallback
      else if messageId i = multipleCallbacks then Some MultipleCallbacks
      else None)"
| "verdictOf (i # i' # is) = None"

section \<open>Calls among the descendants of a node\<close>

text \<open>
  The specification's counter "visits the node and all its syntactic descendants" and
  counts each "call expression whose callee is a bare identifier" named as one of the
  two targets. \<open>descendants_expr\<close>, \<open>descendants_stmt\<close> and \<open>descendants_case\<close> list a
  node and all its descendants, the bodies and parameters of function expressions and
  arrow functions included; \<open>isTargetCall\<close> is the test on one node. Both follow the
  specification's words, to be compared with \<^verbatim>\<open>traverse\<close>.
\<close>

fun isTargetCall :: "string \<Rightarrow> string \<Rightarrow> node \<Rightarrow> bool" where
  "isTargetCall r j (ExprNode (CallExpression (Identifier callName) args)) =
     (callName = r \<or> callName = j)"
| "isTargetCall r j n = False"

fun
  descendants_expr :: "expr \<Rightarrow> node list" and
  descendants_stmt :: "stmt \<Rightarrow> node list" and
  descendants_case :: "switch_case \<Rightarrow> node list"
where
  "descendants_expr (Identifier n) = [ExprNode (Identifier n)]"
| "descendants_expr (Literal v) = [ExprNode (Literal v)]"
| "descendants_expr (CallExpression callee args) =
     ExprNode (CallExpression callee args) #
     descendants_expr callee @ concat (map descendants_expr args)"
| "descendants_expr (NewExpression callee args) =
     ExprNode (NewExpression callee args) #
     descendants_expr callee @ concat (map descendants_expr args)"
| "descendants_expr (FunctionExpression params body) =
     ExprNode (FunctionExpression params body) #
     concat (map descendants_expr params) @ concat (map descendants_stmt body)"
| "descendants_expr (ArrowFunctionExpression params body) =
     ExprNode (ArrowFunctionExpression params body) #
     concat (map descendants_expr params) @ concat (map descendants_stmt body)"
| "descendants_expr (ArrowFunctionExpr params body) =
     ExprNode (ArrowFunctionExpr params body) #
     concat (map descendants_expr params) @ descendants_expr body"
| "descendants_expr (OtherExpression ty children) =
     ExprNode (OtherExpression ty children) # concat (map descendants_expr children)"

| "descendants_stmt (BlockStatement body) =
     StmtNode (BlockStatement body) # concat (map descendants_stmt body)"
| "descendants_stmt (ExpressionStatement e) =
     StmtNode (ExpressionStatement e) # descendants_expr e"
| "descendants_stmt (IfStatement c t e) =
     StmtNode (IfStatement c t e) # descendants_expr c @ descendants_stmt t @
     (case e of None \<Rightarrow> [] | Some alternate \<Rightarrow> descendants_stmt alternate)"
| "descendants_stmt (TryStatement b h f) =
     StmtNode (TryStatement b h f) # concat (map descendants_stmt b) @
     (case h of
        None \<Rightarrow> []
      | Some handler \<Rightarrow>
          (case fst handler of None \<Rightarrow> [] | Some param \<Rightarrow> descendants_expr param) @
          concat (map descendants_stmt (snd handler))) @
     (case f of None \<Rightarrow> [] | Some finalizer \<Rightarrow> concat (map descendants_stmt finalizer))"
| "descendants_stmt (SwitchStatement d cs) =
     StmtNode (SwitchStatement d cs) # descendants_expr d @ concat (map descendants_case cs)"
| "descendants_stmt (ForStatement i c u b) =
     StmtNode (ForStatement i c u b) #
     (case i of None \<Rightarrow> [] | Some e \<Rightarrow> descendants_expr e) @
     (case c of None \<Rightarrow> [] | Some e \<Rightarrow> descendants_expr e) @
     (case u of None \<Rightarrow> [] | Some e \<Rightarrow> descendants_expr e) @
     descendants_stmt b"
| "descendants_stmt (WhileStatement c b) =
     StmtNode (WhileStatement c b) # descendants_expr c @ descendants_stmt b"
| "descendants_stmt (DoWhileStatement b c) =
     StmtNode (DoWhileStatement b c) # descendants_stmt b @ descendants_expr c"
| "descendants_stmt (ReturnStatement a) =
     StmtNode (ReturnStatement a) # (case a of None \<Rightarrow> [] | Some e \<Rightarrow> descendants_expr e)"
| "descendants_stmt (ThrowStatement a) = StmtNode (ThrowStatement a) # descendants_expr a"
| "descendants_stmt (BreakStatement l) =
     StmtNode (BreakStatement l) # (case l of None \<Rightarrow> [] | Some e \<Rightarrow> descendants_expr e)"
| "descendants_stmt (OtherStatement ty es ss) =
     StmtNode (OtherStatement ty es ss) #
     concat (map descendants_expr es) @ concat (map descendants_stmt ss)"

| "descendants_case (SwitchCase t c) =
     CaseNode (SwitchCase t c) #
     (case t of None \<Rightarrow> [] | Some e \<Rightarrow> descendants_expr e) @
     concat (map descendants_stmt c)"

fun descendants :: "node \<Rightarrow> node list" where
  "descendants (ExprNode e) = descendants_expr e"
| "descendants (StmtNode s) = descendants_stmt s"
| "descendants (CaseNode c) = descendants_case c"

definition targetCalls :: "string \<Rightarrow> string \<Rightarrow> node \<Rightarrow> nat" where
  "targetCalls r j n = length (filter (isTargetCall r j) (descendants n))"

section \<open>Kinds of statement\<close>

text \<open>
  \<^verbatim>\<open>analyzeBlock\<close> tells statements apart by their \<^verbatim>\<open>type\<close>. \<open>plain\<close> holds of the
  statements that reach its last \<^verbatim>\<open>else\<close> branch, where the statement is pushed to the
  working path: every kind but if, try, switch, the three loops, return and throw.
  \<open>nonBranching\<close> adds return and throw: the statements at which no path forks.
\<close>

fun plain :: "stmt \<Rightarrow> bool" where
  "plain (BlockStatement body) = True"
| "plain (ExpressionStatement e) = True"
| "plain (BreakStatement l) = True"
| "plain (OtherStatement ty es ss) = True"
| "plain s = False"

fun isReturn :: "stmt \<Rightarrow> bool" where
  "isReturn (ReturnStatement a) = True"
| "isReturn s = False"

fun isThrow :: "stmt \<Rightarrow> bool" where
  "isThrow (ThrowStatement a) = True"
| "isThrow s = False"

definition nonBranching :: "stmt \<Rightarrow> bool" where
  "nonBranching s = (plain s \<or> isReturn s \<or> isThrow s)"

fun isIf :: "stmt \<Rightarrow> bool" where
  "isIf (IfStatement c t e) = True"
| "isIf s = False"

fun isTry :: "stmt \<Rightarrow> bool" where
  "isTry (TryStatement b h f) = True"
| "isTry s = False"

fun isSwitch :: "stmt \<Rightarrow> bool" where
  "isSwitch (SwitchStatement d cs) = True"
| "isSwitch s = False"

fun isLoop :: "stmt \<Rightarrow> bool" where
  "isLoop (ForStatement i c u b) = True"
| "isLoop (WhileStatement c b) = True"
| "isLoop (DoWhileStatement b c) = True"
| "isLoop s = False"

section \<open>Programs used in the examples\<close>

text \<open>\<open>callStmt n\<close> is the statement \<^verbatim>\<open>n();\<close>.\<close>

definition callStmt :: "string \<Rightarrow> stmt" where
  "callStmt n = ExpressionStatement (CallExpression (Identifier n) [])"

text \<open>
  \<open>ifChain n\<close> is \<open>n\<close> times the statement \<^verbatim>\<open>if (c) { ; }\<close>, one after the other:
  no callback is called anywhere in it.
\<close>

definition skipIf :: stmt where
  "skipIf = IfStatement (Identifier ''c'')
              (BlockStatement [OtherStatement ''EmptyStatement'' [] []]) None"

definition ifChain :: "nat \<Rightarrow> stmt list" where
  "ifChain n = replicate n skipIf"

section \<open>Basic facts\<close>

lemma traverse_callStmt [simp]:
  "traverse_stmt r j (callStmt n) = (if n = r \<or> n = j then 1 else 0)"
  by (simp add: callStmt_def)

lemma analyzeBlock_callStmt [simp]:
  "analyzeBlock (callStmt n # rest) cur = analyzeBlock rest (cur @ [StmtNode (callStmt n)])"
  by (simp add: callStmt_def)

lemma verdictOf_pathIssues:
  "verdictOf (pathIssues body r j p) = Some (classify (countCallbacksInPath p r j))"
  by (auto simp: pathIssues_def classify_def Let_def)

lemmas analyze_stmt_simps =
  analyzeIfStatement.simps analyzeTryStatement.simps analyzeSwitchStatement.simps
  analyzeLoopStatement.simps

lemma analyzeBlock_plain:
  "plain s \<Longrightarrow> analyzeBlock (s # rest) cur = analyzeBlock rest (cur @ [StmtNode s])"
  by (cases s) simp_all

lemma analyzeBlock_plain_prefix:
  "list_all plain pre \<Longrightarrow>
   analyzeBlock (pre @ rest) cur = analyzeBlock rest (cur @ map StmtNode pre)"
  by (induction pre arbitrary: cur) (simp_all add: analyzeBlock_plain)

text \<open>
  Nothing that follows a return or a throw in its own statement list is looked at,
  whatever stands before it.
\<close>

lemma analyzeBlock_cut_at_exit:
  assumes "s = ReturnStatement a \<or> s = ThrowStatement b"
  shows "analyzeBlock (pre @ s # post) cur = analyzeBlock (pre @ [s]) cur"
proof (induction pre arbitrary: cur)
  case Nil
  from assms show ?case by auto
next
  case (Cons x pre)
  show ?case
    by (cases x) (simp_all del: analyze_stmt_simps add: Cons.IH cong: if_cong)
qed

text \<open>
  An induction principle for properties of single paths. A path is made in four places
  only: at the end of a statement list, at a return, at a throw, and as a synthetic
  path (missing else, empty case, implicit default, skipped loop). \<open>C\<close> is what is
  known of the prefix, \<open>Q\<close> what is shown of every path enumerated from it.
\<close>

lemma paths_invariant:
  assumes app: "\<And>cur x. C cur \<Longrightarrow> C (cur @ [x])"
      and QC: "\<And>p. Q p \<Longrightarrow> C (statements p)"
      and ft: "\<And>cur. C cur \<Longrightarrow> cur \<noteq> [] \<Longrightarrow>
                 Q \<lparr>statements = cur, endNode = Some (last cur), terminated = No, flag = None\<rparr>"
      and rt: "\<And>cur a. C cur \<Longrightarrow>
                 Q \<lparr>statements = cur @ [StmtNode (ReturnStatement a)],
                    endNode = Some (StmtNode (ReturnStatement a)), terminated = Yes, flag = None\<rparr>"
      and th: "\<And>cur a. C cur \<Longrightarrow>
                 Q \<lparr>statements = cur @ [StmtNode (ThrowStatement a)],
                    endNode = Some (StmtNode (ThrowStatement a)), terminated = Thrown, flag = None\<rparr>"
      and sy: "\<And>cur n f. C cur \<Longrightarrow>
                 Q \<lparr>statements = cur, endNode = Some n, terminated = No, flag = Some f\<rparr>"
  shows "C cur \<longrightarrow> (\<forall>p\<in>set (analyzeBlock ss cur). Q p)"
    and "isIf s1 \<longrightarrow> C cur1 \<longrightarrow> (\<forall>p\<in>set (analyzeIfStatement s1 cur1). Q p)"
    and "isTry s2 \<longrightarrow> C cur2 \<longrightarrow> (\<forall>p\<in>set (analyzeTryStatement s2 cur2). Q p)"
    and "isSwitch s3 \<longrightarrow> C cur3 \<longrightarrow> (\<forall>p\<in>set (analyzeSwitchStatement s3 cur3). Q p)"
    and "isLoop s4 \<longrightarrow> C cur4 \<longrightarrow> (\<forall>p\<in>set (analyzeLoopStatement s4 cur4). Q p)"
proof (induction ss cur and s1 cur1 and s2 cur2 and s3 cur3 and s4 cur4
       rule: analyzeBlock_analyzeIfStatement_analyzeTryStatement_analyzeSwitchStatement_analyzeLoopStatement.induct)
  case (1 workingPath)
  then show ?case by (simp add: ft)
next
  case (2 c t e remainingStatements workingPath)
  then show ?case by (auto simp del: analyze_stmt_simps dest: QC split: if_splits)
next
  case (3 b h f remainingStatements workingPath)
  then show ?case by (auto simp del: analyze_stmt_simps dest: QC split: if_splits)
next
  case (4 d cs remainingStatements workingPath)
  then show ?case by (auto simp del: analyze_stmt_simps dest: QC split: if_splits)
next
  case (5 i c u b remainingStatements workingPath)
  then show ?case by (auto simp del: analyze_stmt_simps dest: QC split: if_splits)
next
  case (6 c b remainingStatements workingPath)
  then show ?case by (auto simp del: analyze_stmt_simps dest: QC split: if_splits)
next
  case (7 b c remainingStatements workingPath)
  then show ?case by (auto simp del: analyze_stmt_simps dest: QC split: if_splits)
next
  case (8 a remainingStatements workingPath)
  then show ?case by (simp add: rt)
next
  case (9 a remainingStatements workingPath)
  then show ?case by (simp add: th)
next
  case (11 c t e currentPath)
  then show ?case by (auto simp: sy split: option.splits)
next
  case (12 b h f currentPath)
  then show ?case by (auto simp: Let_def split: option.splits if_splits) (metis QC)+
next
  case (13 d cs currentPath)
  then show ?case by (auto simp: sy split: if_splits)
next
  case (14 i c u b currentPath)
  then show ?case by (auto simp: sy)
next
  case (15 c b currentPath)
  then show ?case by (auto simp: sy)
next
  case (16 b c currentPath)
  then show ?case by (auto simp: sy)
qed (simp_all add: app)

section \<open>The verdict is a function of the count\<close>

text \<open>
  Claim C4. What the rule reports for a path, read as a verdict, is decided by the path's
  callback count alone: count 0 is \<open>NoCallback\<close>, count 1 is \<open>OK\<close> (nothing is
  reported), a larger count is \<open>MultipleCallbacks\<close>. For the straight-line body
  \<^verbatim>\<open>r(); j();\<close>, with \<open>r\<close> and \<open>j\<close> the two parameter names, exactly one path is
  enumerated and exactly one issue, \<^verbatim>\<open>multipleCallbacks\<close>, is reported.
\<close>

theorem C4_verdict_by_count:
  "verdictOf (pathIssues body r j p) = Some (classify (countCallbacksInPath p r j))
   \<and> findAllExecutionPaths (StmtNode (BlockStatement [callStmt r, callStmt j])) =
       [\<lparr>statements = [StmtNode (callStmt r), StmtNode (callStmt j)],
         endNode = Some (StmtNode (callStmt j)), terminated = No, flag = None\<rparr>]
   \<and> analyzeExecutionPaths (StmtNode (BlockStatement [callStmt r, callStmt j])) r j =
       [\<lparr>node = StmtNode (callStmt j), messageId = multipleCallbacks\<rparr>]"
proof (intro conjI)
  show "verdictOf (pathIssues body r j p) = Some (classify (countCallbacksInPath p r j))"
    by (rule verdictOf_pathIssues)
  show "findAllExecutionPaths (StmtNode (BlockStatement [callStmt r, callStmt j])) =
       [\<lparr>statements = [StmtNode (callStmt r), StmtNode (callStmt j)],
         endNode = Some (StmtNode (callStmt j)), terminated = No, flag = None\<rparr>]"
    by simp
  then show "analyzeExecutionPaths (StmtNode (BlockStatement [callStmt r, callStmt j])) r j =
       [\<lparr>node = StmtNode (callStmt j), messageId = multipleCallbacks\<rparr>]"
    by (simp add: analyzeExecutionPaths_def pathIssues_def countCallbacksInPath_def)
qed

theorem C4_verdict_by_count_witness:
  "verdictOf (pathIssues (StmtNode (BlockStatement [callStmt ''resolve'', callStmt ''reject'']))
      ''resolve'' ''reject''
      \<lparr>statements = [StmtNode (callStmt ''resolve''), StmtNode (callStmt ''reject'')],
        endNode = Some (StmtNode (callStmt ''reject'')), terminated = No, flag = None\<rparr>)
    = Some MultipleCallbacks"
  using C4_verdict_by_count
    [of "StmtNode (BlockStatement [callStmt ''resolve'', callStmt ''reject''])"
        "''resolve''" "''reject''"
        "\<lparr>statements = [StmtNode (callStmt ''resolve''), StmtNode (callStmt ''reject'')],
          endNode = Some (StmtNode (callStmt ''reject'')), terminated = No, flag = None\<rparr>"]
  by (simp add: classify_def countCallbacksInPath_def)

section \<open>Return and throw close a path\<close>

text \<open>
  Claim C2. When \<^verbatim>\<open>analyzeBlock\<close> reaches a return or a throw after plain statements,
  it closes exactly one path, \<^verbatim>\<open>terminated\<close> \<^verbatim>\<open>'yes'\<close> or \<^verbatim>\<open>'thrown'\<close>, whose last
  statement is that return or throw; and whatever stands before it, the statements
  after it in the same list change nothing of the result. For the body
  \<^verbatim>\<open>if (c) { r(); return; } j();\<close> the then-path ends at the return and does not get
  \<^verbatim>\<open>j()\<close>, the path of the missing else gets \<^verbatim>\<open>j()\<close>, there is no other path, and
  nothing is reported: both count one callback.
\<close>

theorem C2_exit_closes_path:
  "(list_all plain pre \<longrightarrow>
      analyzeBlock (pre @ ReturnStatement a # post) cur =
        [\<lparr>statements = cur @ map StmtNode pre @ [StmtNode (ReturnStatement a)],
          endNode = Some (StmtNode (ReturnStatement a)), terminated = Yes, flag = None\<rparr>])
   \<and> (list_all plain pre \<longrightarrow>
      analyzeBlock (pre @ ThrowStatement b # post) cur =
        [\<lparr>statements = cur @ map StmtNode pre @ [StmtNode (ThrowStatement b)],
          endNode = Some (StmtNode (ThrowStatement b)), terminated = Thrown, flag = None\<rparr>])
   \<and> analyzeBlock (any @ ReturnStatement a # post) cur =
       analyzeBlock (any @ [ReturnStatement a]) cur
   \<and> analyzeBlock (any @ ThrowStatement b # post) cur =
       analyzeBlock (any @ [ThrowStatement b]) cur
   \<and> findAllExecutionPaths (StmtNode (BlockStatement
         [IfStatement c (BlockStatement [callStmt r, ReturnStatement None]) None, callStmt j])) =
       [\<lparr>statements = [StmtNode (callStmt r), StmtNode (ReturnStatement None)],
          endNode = Some (StmtNode (ReturnStatement None)), terminated = Yes, flag = None\<rparr>,
        \<lparr>statements = [StmtNode (callStmt j)],
          endNode = Some (StmtNode (callStmt j)), terminated = No, flag = None\<rparr>]
   \<and> map (\<lambda>p. verdictOf (pathIssues body r j p))
         (findAllExecutionPaths (StmtNode (BlockStatement
            [IfStatement c (BlockStatement [callStmt r, ReturnStatement None]) None,
             callStmt j]))) =
       [Some OK, Some OK]
   \<and> analyzeExecutionPaths (StmtNode (BlockStatement
         [IfStatement c (BlockStatement [callStmt r, ReturnStatement None]) None, callStmt j]))
         r j = []"
proof (intro conjI impI)
  assume "list_all plain pre"
  then show "analyzeBlock (pre @ ReturnStatement a # post) cur =
        [\<lparr>statements = cur @ map StmtNode pre @ [StmtNode (ReturnStatement a)],
          endNode = Some (StmtNode (ReturnStatement a)), terminated = Yes, flag = None\<rparr>]"
    by (simp add: analyzeBlock_plain_prefix)
next
  assume "list_all plain pre"
  then show "analyzeBlock (pre @ ThrowStatement b # post) cur =
        [\<lparr>statements = cur @ map StmtNode pre @ [StmtNode (ThrowStatement b)],
          endNode = Some (StmtNode (ThrowStatement b)), terminated = Thrown, flag = None\<rparr>]"
    by (simp add: analyzeBlock_plain_prefix)
next
  show "analyzeBlock (any @ ReturnStatement a # post) cur =
       analyzeBlock (any @ [ReturnStatement a]) cur"
    by (rule analyzeBlock_cut_at_exit) simp
next
  show "analyzeBlock (any @ ThrowStatement b # post) cur =
       analyzeBlock (any @ [ThrowStatement b]) cur"
    by (rule analyzeBlock_cut_at_exit) simp
next
  show paths: "findAllExecutionPaths (StmtNode (BlockStatement
         [IfStatement c (BlockStatement [callStmt r, ReturnStatement None]) None, callStmt j])) =
       [\<lparr>statements = [StmtNode (callStmt r), StmtNode (ReturnStatement None)],
          endNode = Some (StmtNode (ReturnStatement None)), terminated = Yes, flag = None\<rparr>,
        \<lparr>statements = [StmtNode (callStmt j)],
          endNode = Some (StmtNode (callStmt j)), terminated = No, flag = None\<rparr>]"
    by (simp add: Let_def)
  show "map (\<lambda>p. verdictOf (pathIssues body r j p))
         (findAllExecutionPaths (StmtNode (BlockStatement
            [IfStatement c (BlockStatement [callStmt r, ReturnStatement None]) None,
             callStmt j]))) =
       [Some OK, Some OK]"
    unfolding paths
    by (simp add: verdictOf_pathIssues classify_def countCallbacksInPath_def)
  show "analyzeExecutionPaths (StmtNode (BlockStatement
         [IfStatement c (BlockStatement [callStmt r, ReturnStatement None]) None, callStmt j]))
         r j = []"
    unfolding analyzeExecutionPaths_def paths
    by (simp add: pathIssues_def countCallbacksInPath_def)
qed

theorem C2_exit_closes_path_witness:
  "list_all plain [callStmt ''log'']
   \<and> analyzeBlock ([callStmt ''log''] @ ReturnStatement None # [callStmt ''reject'']) [] =
        [\<lparr>statements = [StmtNode (callStmt ''log''), StmtNode (ReturnStatement None)],
          endNode = Some (StmtNode (ReturnStatement None)), terminated = Yes, flag = None\<rparr>]"
  using C2_exit_closes_path [of "[callStmt ''log'']" None "[callStmt ''reject'']" "[]"]
  by (simp add: callStmt_def)

section \<open>An if without else\<close>

text \<open>
  Claim C3. For an if statement with no alternate, \<^verbatim>\<open>analyzeIfStatement\<close> returns the
  paths of the consequent followed by exactly one synthetic path: its statements are
  the current prefix, it is not terminated, and its end node is the if statement
  itself. For the body \<^verbatim>\<open>if (c) { r() }\<close> this gives exactly two paths; the first is
  \<open>OK\<close>, the second \<open>NoCallback\<close>, reported at the if statement.
\<close>

theorem C3_missing_else:
  "analyzeIfStatement (IfStatement c t None) cur =
     analyzeBlock (bodyStatements t) cur @
     [\<lparr>statements = cur, endNode = Some (StmtNode (IfStatement c t None)),
       terminated = No, flag = Some ContinuesAfterIf\<rparr>]
   \<and> findAllExecutionPaths (StmtNode (BlockStatement
         [IfStatement c (BlockStatement [callStmt r]) None])) =
       [\<lparr>statements = [StmtNode (callStmt r)], endNode = Some (StmtNode (callStmt r)),
          terminated = No, flag = None\<rparr>,
        \<lparr>statements = [],
          endNode = Some (StmtNode (IfStatement c (BlockStatement [callStmt r]) None)),
          terminated = No, flag = Some ContinuesAfterIf\<rparr>]
   \<and> map (\<lambda>p. verdictOf (pathIssues body r j p))
         (findAllExecutionPaths (StmtNode (BlockStatement
            [IfStatement c (BlockStatement [callStmt r]) None]))) =
       [Some OK, Some NoCallback]
   \<and> analyzeExecutionPaths (StmtNode (BlockStatement
         [IfStatement c (BlockStatement [callStmt r]) None])) r j =
       [\<lparr>node = StmtNode (IfStatement c (BlockStatement [callStmt r]) None),
         messageId = noCallback\<rparr>]"
proof (intro conjI)
  show "analyzeIfStatement (IfStatement c t None) cur =
     analyzeBlock (bodyStatements t) cur @
     [\<lparr>statements = cur, endNode = Some (StmtNode (IfStatement c t None)),
       terminated = No, flag = Some ContinuesAfterIf\<rparr>]"
    by (simp add: Let_def)
  show paths: "findAllExecutionPaths (StmtNode (BlockStatement
         [IfStatement c (BlockStatement [callStmt r]) None])) =
       [\<lparr>statements = [StmtNode (callStmt r)], endNode = Some (StmtNode (callStmt r)),
          terminated = No, flag = None\<rparr>,
        \<lparr>statements = [],
          endNode = Some (StmtNode (IfStatement c (BlockStatement [callStmt r]) None)),
          terminated = No, flag = Some ContinuesAfterIf\<rparr>]"
    by (simp add: Let_def)
  show "map (\<lambda>p. verdictOf (pathIssues body r j p))
         (findAllExecutionPaths (StmtNode (BlockStatement
            [IfStatement c (BlockStatement [callStmt r]) None]))) =
       [Some OK, Some NoCallback]"
    unfolding paths
    by (simp add: verdictOf_pathIssues classify_def countCallbacksInPath_def)
  show "analyzeExecutionPaths (StmtNode (BlockStatement
         [IfStatement c (BlockStatement [callStmt r]) None])) r j =
       [\<lparr>node = StmtNode (IfStatement c (BlockStatement [callStmt r]) None),
         messageId = noCallback\<rparr>]"
    unfolding analyzeExecutionPaths_def paths
    by (simp add: pathIssues_def countCallbacksInPath_def)
qed

theorem C3_missing_else_witness:
  "analyzeExecutionPaths (StmtNode (BlockStatement
      [IfStatement (Identifier ''c'') (BlockStatement [callStmt ''resolve'']) None]))
      ''resolve'' ''reject'' =
    [\<lparr>node = StmtNode (IfStatement (Identifier ''c'') (BlockStatement [callStmt ''resolve'']) None),
      messageId = noCallback\<rparr>]"
  using C3_missing_else [of "Identifier ''c''" _ _ "''resolve''" _ "''reject''"]
  by simp

section \<open>Try with a finally block\<close>

text \<open>
  Claim C1 (the code at the claim's example). \<^verbatim>\<open>analyzeTryStatement\<close> runs the
  finally statements after every path of the try block, terminated or not, but the
  paths of the catch handler are returned as they are. For
  \<^verbatim>\<open>try { r() } catch (e) { j() } finally { r() }\<close> the catch path holds \<^verbatim>\<open>j()\<close> alone and
  counts one callback, the try path holds \<^verbatim>\<open>r(); r()\<close> and counts two: one issue is
  reported, not two.
\<close>

theorem C1_finally_joins_try_paths_only:
  "analyzeTryStatement (TryStatement b (Some (prm, hb)) (Some fin)) cur =
     analyzeBlock hb cur @
     concat (map (\<lambda>tryPath. analyzeBlock fin (statements tryPath)) (analyzeBlock b cur))
   \<and> findAllExecutionPaths (StmtNode (BlockStatement
         [TryStatement [callStmt r] (Some (prm, [callStmt j])) (Some [callStmt r])])) =
       [\<lparr>statements = [StmtNode (callStmt j)], endNode = Some (StmtNode (callStmt j)),
          terminated = No, flag = None\<rparr>,
        \<lparr>statements = [StmtNode (callStmt r), StmtNode (callStmt r)],
          endNode = Some (StmtNode (callStmt r)), terminated = No, flag = None\<rparr>]
   \<and> map (\<lambda>p. countCallbacksInPath p r j)
         (findAllExecutionPaths (StmtNode (BlockStatement
           [TryStatement [callStmt r] (Some (prm, [callStmt j])) (Some [callStmt r])]))) =
       [1, 2]
   \<and> analyzeExecutionPaths (StmtNode (BlockStatement
         [TryStatement [callStmt r] (Some (prm, [callStmt j])) (Some [callStmt r])])) r j =
       [\<lparr>node = StmtNode (callStmt r), messageId = multipleCallbacks\<rparr>]"
proof (intro conjI)
  show "analyzeTryStatement (TryStatement b (Some (prm, hb)) (Some fin)) cur =
     analyzeBlock hb cur @
     concat (map (\<lambda>tryPath. analyzeBlock fin (statements tryPath)) (analyzeBlock b cur))"
    by (simp add: Let_def)
  show paths: "findAllExecutionPaths (StmtNode (BlockStatement
         [TryStatement [callStmt r] (Some (prm, [callStmt j])) (Some [callStmt r])])) =
       [\<lparr>statements = [StmtNode (callStmt j)], endNode = Some (StmtNode (callStmt j)),
          terminated = No, flag = None\<rparr>,
        \<lparr>statements = [StmtNode (callStmt r), StmtNode (callStmt r)],
          endNode = Some (StmtNode (callStmt r)), terminated = No, flag = None\<rparr>]"
    by (simp add: Let_def)
  show "map (\<lambda>p. countCallbacksInPath p r j)
         (findAllExecutionPaths (StmtNode (BlockStatement
           [TryStatement [callStmt r] (Some (prm, [callStmt j])) (Some [callStmt r])]))) =
       [1, 2]"
    unfolding paths by (simp add: countCallbacksInPath_def)
  show "analyzeExecutionPaths (StmtNode (BlockStatement
         [TryStatement [callStmt r] (Some (prm, [callStmt j])) (Some [callStmt r])])) r j =
       [\<lparr>node = StmtNode (callStmt r), messageId = multipleCallbacks\<rparr>]"
    unfolding analyzeExecutionPaths_def paths
    by (simp add: pathIssues_def countCallbacksInPath_def)
qed

theorem C1_finally_joins_try_paths_only_witness:
  "map (\<lambda>p. countCallbacksInPath p ''resolve'' ''reject'')
     (findAllExecutionPaths (StmtNode (BlockStatement
        [TryStatement [callStmt ''resolve'']
           (Some (Some (Identifier ''e''), [callStmt ''reject'']))
           (Some [callStmt ''resolve''])]))) =
   [1, 2]"
  using C1_finally_joins_try_paths_only
    [of _ "Some (Identifier ''e'')" _ _ _ "''resolve''" "''reject''"]
  by simp

section \<open>A terminated path ends with its return or throw\<close>

lemma terminated_path_shape:
  "\<forall>p\<in>set (analyzeBlock ss cur).
     terminated p \<noteq> No \<longrightarrow>
     (\<exists>s pre. statements p = pre @ [StmtNode s] \<and> endNode p = Some (StmtNode s) \<and>
        (if terminated p = Yes then isReturn s else isThrow s))"
  using paths_invariant(1)
    [where C = "\<lambda>c. True" and cur = cur and ss = ss and
      Q = "\<lambda>p. terminated p \<noteq> No \<longrightarrow>
        (\<exists>s pre. statements p = pre @ [StmtNode s] \<and> endNode p = Some (StmtNode s) \<and>
          (if terminated p = Yes then isReturn s else isThrow s))"]
  by simp

lemma findAllExecutionPaths_cases:
  "(\<exists>b. body = StmtNode (BlockStatement b) \<and> findAllExecutionPaths body = analyzeBlock b [])
   \<or> findAllExecutionPaths body =
       [\<lparr>statements = [body], endNode = Some body, terminated = No, flag = None\<rparr>]"
proof (cases body)
  case (StmtNode s)
  then show ?thesis by (cases s) simp_all
qed simp_all

text \<open>
  Claim C10. A path closed by a return or a throw has that statement as the last of its
  statements (and as its end node), so the callbacks counted in it are part of the
  path's count: the count of the path is the count of the statements before plus the
  count of the return or throw. A return of a call to one of the two parameters counts
  one, plus what its arguments hold. For \<^verbatim>\<open>if (c) { return r(); } j();\<close> both paths
  count one and nothing is reported.
\<close>

theorem C10_exit_statement_is_counted:
  "(p \<in> set (findAllExecutionPaths body) \<and> terminated p \<noteq> No \<longrightarrow>
      (\<exists>s pre. statements p = pre @ [StmtNode s] \<and> endNode p = Some (StmtNode s) \<and>
         (if terminated p = Yes then isReturn s else isThrow s) \<and>
         countCallbacksInPath p r j =
           sum_list (map (\<lambda>n. countCallbacksInStatement n r j) pre) + traverse_stmt r j s))
   \<and> traverse_stmt r j (ReturnStatement (Some (CallExpression (Identifier r) args))) =
       1 + sum_list (map (traverse_expr r j) args)
   \<and> findAllExecutionPaths (StmtNode (BlockStatement
         [IfStatement c (BlockStatement
            [ReturnStatement (Some (CallExpression (Identifier r) []))]) None, callStmt j])) =
       [\<lparr>statements = [StmtNode (ReturnStatement (Some (CallExpression (Identifier r) [])))],
          endNode = Some (StmtNode (ReturnStatement (Some (CallExpression (Identifier r) [])))),
          terminated = Yes, flag = None\<rparr>,
        \<lparr>statements = [StmtNode (callStmt j)], endNode = Some (StmtNode (callStmt j)),
          terminated = No, flag = None\<rparr>]
   \<and> analyzeExecutionPaths (StmtNode (BlockStatement
         [IfStatement c (BlockStatement
            [ReturnStatement (Some (CallExpression (Identifier r) []))]) None, callStmt j]))
         r j = []"
proof (intro conjI impI)
  assume a: "p \<in> set (findAllExecutionPaths body) \<and> terminated p \<noteq> No"
  from findAllExecutionPaths_cases [of body] a
  obtain b where "p \<in> set (analyzeBlock b [])" by auto
  with a terminated_path_shape [of b "[]"]
  obtain s pre where sp: "statements p = pre @ [StmtNode s]" "endNode p = Some (StmtNode s)"
      "if terminated p = Yes then isReturn s else isThrow s"
    by blast
  from sp(1) have "countCallbacksInPath p r j =
      sum_list (map (\<lambda>n. countCallbacksInStatement n r j) pre) + traverse_stmt r j s"
    by (simp add: countCallbacksInPath_def)
  with sp show "\<exists>s pre. statements p = pre @ [StmtNode s] \<and> endNode p = Some (StmtNode s) \<and>
         (if terminated p = Yes then isReturn s else isThrow s) \<and>
         countCallbacksInPath p r j =
           sum_list (map (\<lambda>n. countCallbacksInStatement n r j) pre) + traverse_stmt r j s"
    by blast
next
  show "traverse_stmt r j (ReturnStatement (Some (CallExpression (Identifier r) args))) =
       1 + sum_list (map (traverse_expr r j) args)"
    by simp
next
  show paths: "findAllExecutionPaths (StmtNode (BlockStatement
         [IfStatement c (BlockStatement
            [ReturnStatement (Some (CallExpression (Identifier r) []))]) None, callStmt j])) =
       [\<lparr>statements = [StmtNode (ReturnStatement (Some (CallExpression (Identifier r) [])))],
          endNode = Some (StmtNode (ReturnStatement (Some (CallExpression (Identifier r) [])))),
          terminated = Yes, flag = None\<rparr>,
        \<lparr>statements = [StmtNode (callStmt j)], endNode = Some (StmtNode (callStmt j)),
          terminated = No, flag = None\<rparr>]"
    by (simp add: Let_def)
  show "analyzeExecutionPaths (StmtNode (BlockStatement
         [IfStatement c (BlockStatement
            [ReturnStatement (Some (CallExpression (Identifier r) []))]) None, callStmt j]))
         r j = []"
    unfolding analyzeExecutionPaths_def paths
    by (simp add: pathIssues_def countCallbacksInPath_def)
qed

theorem C10_exit_statement_is_counted_witness:
  "\<lparr>statements = [StmtNode (ReturnStatement (Some (CallExpression (Identifier ''resolve'') [])))],
     endNode = Some (StmtNode (ReturnStatement (Some (CallExpression (Identifier ''resolve'') [])))),
     terminated = Yes, flag = None\<rparr>
     \<in> set (findAllExecutionPaths (StmtNode (BlockStatement
         [IfStatement (Identifier ''c'') (BlockStatement
            [ReturnStatement (Some (CallExpression (Identifier ''resolve'') []))]) None,
          callStmt ''reject''])))
   \<and> countCallbacksInPath
        \<lparr>statements = [StmtNode (ReturnStatement (Some (CallExpression (Identifier ''resolve'') [])))],
          endNode = Some (StmtNode (ReturnStatement (Some (CallExpression (Identifier ''resolve'') [])))),
          terminated = Yes, flag = None\<rparr> ''resolve'' ''reject'' = 1"
  using C10_exit_statement_is_counted
    [of "\<lparr>statements = [StmtNode (ReturnStatement (Some (CallExpression (Identifier ''resolve'') [])))],
          endNode = Some (StmtNode (ReturnStatement (Some (CallExpression (Identifier ''resolve'') [])))),
          terminated = Yes, flag = None\<rparr>"
        "StmtNode (BlockStatement
         [IfStatement (Identifier ''c'') (BlockStatement
            [ReturnStatement (Some (CallExpression (Identifier ''resolve'') []))]) None,
          callStmt ''reject''])"
        "''resolve''" "''reject''" "[]" "Identifier ''c''"]
  by auto

section \<open>Break is a plain statement\<close>

lemma paths_extend_prefix:
  "\<forall>p\<in>set (analyzeBlock ss cur). \<exists>ys. statements p = cur @ ys"
proof -
  have "(\<exists>ys. cur = cur @ ys) \<longrightarrow> (\<forall>p\<in>set (analyzeBlock ss cur). \<exists>ys. statements p = cur @ ys)"
    by (rule paths_invariant(1)
          [where C = "\<lambda>c. \<exists>ys. c = cur @ ys" and Q = "\<lambda>p. \<exists>ys. statements p = cur @ ys"])
       auto
  then show ?thesis by simp
qed

lemma analyzeBlock_all_plain:
  "list_all plain ss \<Longrightarrow> ss \<noteq> [] \<Longrightarrow>
   analyzeBlock ss cur =
     [\<lparr>statements = cur @ map StmtNode ss, endNode = Some (StmtNode (last ss)),
       terminated = No, flag = None\<rparr>]"
  using analyzeBlock_plain_prefix [of ss "[]" cur] by (simp add: last_map)

lemma continuation_in_result:
  assumes "p \<in> set ps" "terminated p = No" "rest \<noteq> []"
  shows "set (analyzeBlock rest (statements p)) \<subseteq>
         set (concat (map (\<lambda>p. if terminated p = No \<and> rest \<noteq> []
                                 then analyzeBlock rest (statements p) else [p]) ps))"
  using assms by auto

text \<open>
  Claim C9. A break statement is pushed to the working path like any plain statement
  and the walk goes on with what follows it: every path enumerated from there holds the
  break. In a list of plain statements with a break the one path holds all of them and
  is not terminated. And when such a list is the body of a switch case, the block of a
  while loop or the consequent block of an if, the statements that follow the switch,
  loop or if are enumerated from the path of that body, break included.
\<close>

theorem C9_break_is_plain:
  "(list_all plain pre \<longrightarrow>
      analyzeBlock (pre @ BreakStatement l # post) cur =
        analyzeBlock post (cur @ map StmtNode pre @ [StmtNode (BreakStatement l)]))
   \<and> (list_all plain pre \<and> p \<in> set (analyzeBlock (pre @ BreakStatement l # post) cur) \<longrightarrow>
        (\<exists>ys. statements p = cur @ map StmtNode pre @ [StmtNode (BreakStatement l)] @ ys))
   \<and> (list_all plain pre \<and> list_all plain post \<longrightarrow>
      analyzeBlock (pre @ BreakStatement l # post) cur =
        [\<lparr>statements = cur @ map StmtNode (pre @ BreakStatement l # post),
           endNode = Some (StmtNode (last (BreakStatement l # post))),
           terminated = No, flag = None\<rparr>])
   \<and> (list_all plain pre \<and> list_all plain post \<and> rest \<noteq> [] \<and>
      SwitchCase t (pre @ BreakStatement l # post) \<in> set cs \<longrightarrow>
      set (analyzeBlock rest (cur @ map StmtNode (pre @ BreakStatement l # post)))
        \<subseteq> set (analyzeBlock (SwitchStatement d cs # rest) cur))
   \<and> (list_all plain pre \<and> list_all plain post \<and> rest \<noteq> [] \<longrightarrow>
      set (analyzeBlock rest (cur @ map StmtNode (pre @ BreakStatement l # post)))
        \<subseteq> set (analyzeBlock
              (WhileStatement c (BlockStatement (pre @ BreakStatement l # post)) # rest) cur))
   \<and> (list_all plain pre \<and> list_all plain post \<and> rest \<noteq> [] \<longrightarrow>
      set (analyzeBlock rest (cur @ map StmtNode (pre @ BreakStatement l # post)))
        \<subseteq> set (analyzeBlock
              (IfStatement c (BlockStatement (pre @ BreakStatement l # post)) e # rest) cur))"
proof -
  let ?body = "pre @ BreakStatement l # post"
  let ?p = "\<lparr>statements = cur @ map StmtNode ?body, endNode = Some (StmtNode (last ?body)),
             terminated = No, flag = None\<rparr>"
  have one: "analyzeBlock ?body cur = [?p]"
    if "list_all plain pre" "list_all plain post"
    using that analyzeBlock_all_plain [of ?body cur] by simp
  have walk: "analyzeBlock ?body cur =
        analyzeBlock post (cur @ map StmtNode pre @ [StmtNode (BreakStatement l)])"
    if "list_all plain pre"
    using that by (simp add: analyzeBlock_plain_prefix)
  have holds: "\<exists>ys. statements p = cur @ map StmtNode pre @ [StmtNode (BreakStatement l)] @ ys"
    if "list_all plain pre" "p \<in> set (analyzeBlock ?body cur)"
    using that walk
      paths_extend_prefix [of post "cur @ map StmtNode pre @ [StmtNode (BreakStatement l)]"]
    by auto
  have sw: "set (analyzeBlock rest (cur @ map StmtNode ?body))
        \<subseteq> set (analyzeBlock (SwitchStatement d cs # rest) cur)"
    if pl: "list_all plain pre" "list_all plain post" and r: "rest \<noteq> []"
      and c: "SwitchCase t ?body \<in> set cs"
  proof -
    from one [OF pl] c have "?p \<in> set (analyzeSwitchStatement (SwitchStatement d cs) cur)"
      by (auto intro!: bexI [of _ "SwitchCase t ?body"])
    from continuation_in_result [OF this _ r] show ?thesis
      by (simp del: analyze_stmt_simps)
  qed
  have wh: "set (analyzeBlock rest (cur @ map StmtNode ?body))
        \<subseteq> set (analyzeBlock (WhileStatement c (BlockStatement ?body) # rest) cur)"
    if pl: "list_all plain pre" "list_all plain post" and r: "rest \<noteq> []"
  proof -
    from one [OF pl]
    have "?p \<in> set (analyzeLoopStatement (WhileStatement c (BlockStatement ?body)) cur)"
      by simp
    from continuation_in_result [OF this _ r] show ?thesis
      by (simp del: analyze_stmt_simps)
  qed
  have ifs: "set (analyzeBlock rest (cur @ map StmtNode ?body))
        \<subseteq> set (analyzeBlock (IfStatement c (BlockStatement ?body) e # rest) cur)"
    if pl: "list_all plain pre" "list_all plain post" and r: "rest \<noteq> []"
  proof -
    from one [OF pl]
    have "?p \<in> set (analyzeIfStatement (IfStatement c (BlockStatement ?body) e) cur)"
      by (simp add: Let_def)
    from continuation_in_result [OF this _ r] show ?thesis
      by (simp del: analyze_stmt_simps)
  qed
  from walk holds one sw wh ifs show ?thesis
    by (intro conjI impI) (simp_all only: last_appendR list.distinct not_False_eq_True)
qed

theorem C9_break_is_plain_witness:
  "list_all plain [callStmt ''resolve''] \<and> list_all plain []
   \<and> analyzeBlock ([callStmt ''resolve''] @ BreakStatement None # []) [] =
        [\<lparr>statements = [StmtNode (callStmt ''resolve''), StmtNode (BreakStatement None)],
           endNode = Some (StmtNode (BreakStatement None)),
           terminated = No, flag = None\<rparr>]"
  using C9_break_is_plain [of "[callStmt ''resolve'']" None "[]" "[]"]
  by (simp add: callStmt_def)

section \<open>A switch without default\<close>

lemma analyzeBlock_nonBranching:
  "list_all nonBranching ss \<Longrightarrow> ss \<noteq> [] \<or> cur \<noteq> [] \<Longrightarrow> length (analyzeBlock ss cur) = 1"
proof (induction ss arbitrary: cur)
  case Nil
  then show ?case by simp
next
  case (Cons s ss)
  then show ?case by (cases s) (simp_all add: nonBranching_def)
qed

lemma concat_map_singletons:
  "\<forall>x\<in>set xs. length (f x) = 1 \<Longrightarrow> concat (map f xs) = map (\<lambda>x. hd (f x)) xs"
proof (induction xs)
  case Nil
  then show ?case by simp
next
  case (Cons x xs)
  then have "length (f x) = 1" by simp
  then obtain y where "f x = [y]" by (cases "f x") simp_all
  with Cons show ?case by simp
qed

text \<open>
  Claim C7. For a switch none of whose cases is the default, \<^verbatim>\<open>analyzeSwitchStatement\<close>
  returns the paths of the cases, in order, and then exactly one more path: the prefix,
  not terminated, with the switch itself as end node. When no case body holds an if,
  try, switch or loop at its top level there is exactly one path for each case, so
  the switch gives one path more than it has cases; the path of an empty case is the
  prefix, not terminated, with that case as end node.
\<close>

theorem C7_switch_without_default:
  "(\<not> list_ex (\<lambda>caseNode. test caseNode = None) cs \<longrightarrow>
      analyzeSwitchStatement (SwitchStatement d cs) cur =
        concat (map (\<lambda>caseNode.
                       if consequent caseNode \<noteq> []
                       then analyzeBlock (consequent caseNode) cur
                       else [\<lparr>statements = cur, endNode = Some (CaseNode caseNode),
                              terminated = No, flag = Some IsEmpty\<rparr>]) cs) @
        [\<lparr>statements = cur, endNode = Some (StmtNode (SwitchStatement d cs)),
          terminated = No, flag = Some IsImplicitDefault\<rparr>])
   \<and> (\<not> list_ex (\<lambda>caseNode. test caseNode = None) cs \<and>
      (\<forall>caseNode\<in>set cs. list_all nonBranching (consequent caseNode)) \<longrightarrow>
      (\<exists>ps. analyzeSwitchStatement (SwitchStatement d cs) cur =
              ps @ [\<lparr>statements = cur, endNode = Some (StmtNode (SwitchStatement d cs)),
                      terminated = No, flag = Some IsImplicitDefault\<rparr>] \<and>
            length ps = length cs \<and>
            (\<forall>i<length cs. consequent (cs ! i) = [] \<longrightarrow>
               ps ! i = \<lparr>statements = cur, endNode = Some (CaseNode (cs ! i)),
                          terminated = No, flag = Some IsEmpty\<rparr>)))"
proof (intro conjI impI)
  assume "\<not> list_ex (\<lambda>caseNode. test caseNode = None) cs"
  then show "analyzeSwitchStatement (SwitchStatement d cs) cur =
        concat (map (\<lambda>caseNode.
                       if consequent caseNode \<noteq> []
                       then analyzeBlock (consequent caseNode) cur
                       else [\<lparr>statements = cur, endNode = Some (CaseNode caseNode),
                              terminated = No, flag = Some IsEmpty\<rparr>]) cs) @
        [\<lparr>statements = cur, endNode = Some (StmtNode (SwitchStatement d cs)),
          terminated = No, flag = Some IsImplicitDefault\<rparr>]"
    by simp
next
  let ?f = "\<lambda>caseNode.
              if consequent caseNode \<noteq> []
              then analyzeBlock (consequent caseNode) cur
              else [\<lparr>statements = cur, endNode = Some (CaseNode caseNode),
                     terminated = No, flag = Some IsEmpty\<rparr>]"
  let ?ps = "map (\<lambda>x. hd (?f x)) cs"
  assume a: "\<not> list_ex (\<lambda>caseNode. test caseNode = None) cs \<and>
      (\<forall>caseNode\<in>set cs. list_all nonBranching (consequent caseNode))"
  then have "\<forall>x\<in>set cs. length (?f x) = 1"
    by (simp add: analyzeBlock_nonBranching)
  then have "concat (map ?f cs) = ?ps"
    by (rule concat_map_singletons)
  with a have "analyzeSwitchStatement (SwitchStatement d cs) cur =
      ?ps @ [\<lparr>statements = cur, endNode = Some (StmtNode (SwitchStatement d cs)),
               terminated = No, flag = Some IsImplicitDefault\<rparr>]"
    by simp
  moreover have "length ?ps = length cs" by simp
  moreover have "\<forall>i<length cs. consequent (cs ! i) = [] \<longrightarrow>
               ?ps ! i = \<lparr>statements = cur, endNode = Some (CaseNode (cs ! i)),
                           terminated = No, flag = Some IsEmpty\<rparr>"
    by simp
  ultimately show "\<exists>ps. analyzeSwitchStatement (SwitchStatement d cs) cur =
              ps @ [\<lparr>statements = cur, endNode = Some (StmtNode (SwitchStatement d cs)),
                      terminated = No, flag = Some IsImplicitDefault\<rparr>] \<and>
            length ps = length cs \<and>
            (\<forall>i<length cs. consequent (cs ! i) = [] \<longrightarrow>
               ps ! i = \<lparr>statements = cur, endNode = Some (CaseNode (cs ! i)),
                          terminated = No, flag = Some IsEmpty\<rparr>)"
    by blast
qed

theorem C7_switch_without_default_witness:
  "\<not> list_ex (\<lambda>caseNode. test caseNode = None)
       [SwitchCase (Some (Literal ''a'')) [callStmt ''resolve'', BreakStatement None],
        SwitchCase (Some (Literal ''b'')) []]
   \<and> analyzeSwitchStatement (SwitchStatement (Identifier ''status'')
       [SwitchCase (Some (Literal ''a'')) [callStmt ''resolve'', BreakStatement None],
        SwitchCase (Some (Literal ''b'')) []]) [] =
      [\<lparr>statements = [StmtNode (callStmt ''resolve''), StmtNode (BreakStatement None)],
         endNode = Some (StmtNode (BreakStatement None)), terminated = No, flag = None\<rparr>,
       \<lparr>statements = [], endNode = Some (CaseNode (SwitchCase (Some (Literal ''b'')) [])),
         terminated = No, flag = Some IsEmpty\<rparr>,
       \<lparr>statements = [],
         endNode = Some (StmtNode (SwitchStatement (Identifier ''status'')
           [SwitchCase (Some (Literal ''a'')) [callStmt ''resolve'', BreakStatement None],
            SwitchCase (Some (Literal ''b'')) []])),
         terminated = No, flag = Some IsImplicitDefault\<rparr>]"
  using C7_switch_without_default
    [of "[SwitchCase (Some (Literal ''a'')) [callStmt ''resolve'', BreakStatement None],
          SwitchCase (Some (Literal ''b'')) []]" "Identifier ''status''" "[]"]
  by simp

section \<open>How many paths\<close>








section \<open>No limit on the number of paths\<close>

lemma analyzeBlock_skipIf_last:
  "analyzeBlock [skipIf] cur =
     [\<lparr>statements = cur @ [StmtNode (OtherStatement ''EmptyStatement'' [] [])],
        endNode = Some (StmtNode (OtherStatement ''EmptyStatement'' [] [])),
        terminated = No, flag = None\<rparr>,
      \<lparr>statements = cur, endNode = Some (StmtNode skipIf), terminated = No,
        flag = Some ContinuesAfterIf\<rparr>]"
  by (simp add: skipIf_def Let_def)

lemma analyzeBlock_skipIf_step:
  "rest \<noteq> [] \<Longrightarrow>
   analyzeBlock (skipIf # rest) cur =
     analyzeBlock rest (cur @ [StmtNode (OtherStatement ''EmptyStatement'' [] [])]) @
     analyzeBlock rest cur"
  by (simp add: skipIf_def Let_def)

lemma ifChain_Suc: "ifChain (Suc n) = skipIf # ifChain n"
  by (simp add: ifChain_def)

lemma ifChain_paths:
  "length (analyzeBlock (ifChain (Suc n)) cur) = 2 ^ Suc n"
proof (induction n arbitrary: cur)
  case 0
  show ?case by (simp add: ifChain_def analyzeBlock_skipIf_last)
next
  case (Suc n)
  have "ifChain (Suc n) \<noteq> []" by (simp add: ifChain_def)
  then show ?case
    using Suc.IH by (simp add: ifChain_Suc [of "Suc n"] analyzeBlock_skipIf_step)
qed

lemma ifChain_counts:
  "\<forall>p\<in>set (analyzeBlock (ifChain (Suc n)) cur).
     countCallbacksInPath p r j = sum_list (map (\<lambda>s. countCallbacksInStatement s r j) cur)"
proof (induction n arbitrary: cur)
  case 0
  show ?case
    by (simp add: ifChain_def analyzeBlock_skipIf_last countCallbacksInPath_def)
next
  case (Suc n)
  have "ifChain (Suc n) \<noteq> []" by (simp add: ifChain_def)
  then show ?case
    using Suc.IH [of "cur @ [StmtNode (OtherStatement ''EmptyStatement'' [] [])]"] Suc.IH [of cur]
    by (auto simp: ifChain_Suc [of "Suc n"] analyzeBlock_skipIf_step)
qed

lemma all_noCallback:
  "\<forall>p\<in>set ps. countCallbacksInPath p r j = 0 \<Longrightarrow>
   map messageId (concat (map (pathIssues body r j) ps)) = replicate (length ps) noCallback"
  by (induction ps) (simp_all add: pathIssues_def)

text \<open>
  Claim C8, as the code has it. The rule has no limit on the number of paths and no
  outcome of its own other than its list of issues: \<^verbatim>\<open>analyzeExecutionPaths\<close>
  enumerates every path and reports on each. For a body of \<open>n\<close> statements
  \<^verbatim>\<open>if (c) { ; }\<close>, with \<open>n\<close> from 1 to 16, it enumerates \<open>2 ^ n\<close> paths and reports
  \<^verbatim>\<open>noCallback\<close> for every one of them: 65536 issues for 16 statements. Longer
  chains are left out: their path lists pass the number of arguments an engine takes
  in \<^verbatim>\<open>push(...list)\<close>.
\<close>

theorem C8_every_path_is_reported:
  "1 \<le> n \<and> n \<le> 16 \<longrightarrow>
     length (findAllExecutionPaths (StmtNode (BlockStatement (ifChain n)))) = 2 ^ n
     \<and> map messageId (analyzeExecutionPaths (StmtNode (BlockStatement (ifChain n))) r j) =
         replicate (2 ^ n) noCallback"
proof
  assume "1 \<le> n \<and> n \<le> 16"
  then obtain m where n: "n = Suc m" by (cases n) simp_all
  have len: "length (findAllExecutionPaths (StmtNode (BlockStatement (ifChain n)))) = 2 ^ n"
    unfolding n using ifChain_paths [of m "[]"] by simp
  have "\<forall>p\<in>set (findAllExecutionPaths (StmtNode (BlockStatement (ifChain n)))).
          countCallbacksInPath p r j = 0"
    unfolding n using ifChain_counts [of m "[]" r j] by simp
  from all_noCallback [OF this] len
  have "map messageId (analyzeExecutionPaths (StmtNode (BlockStatement (ifChain n))) r j) =
       replicate (2 ^ n) noCallback"
    by (simp add: analyzeExecutionPaths_def)
  with len
  show "length (findAllExecutionPaths (StmtNode (BlockStatement (ifChain n)))) = 2 ^ n
     \<and> map messageId (analyzeExecutionPaths (StmtNode (BlockStatement (ifChain n))) r j) =
         replicate (2 ^ n) noCallback"
    by simp
qed

theorem C8_every_path_is_reported_witness:
  "(1::nat) \<le> 3 \<and> (3::nat) \<le> 16
   \<and> length (findAllExecutionPaths (StmtNode (BlockStatement (ifChain 3)))) = 8
   \<and> map messageId (analyzeExecutionPaths (StmtNode (BlockStatement (ifChain 3)))
         ''resolve'' ''reject'') = replicate 8 noCallback"
  using C8_every_path_is_reported [of 3 "''resolve''" "''reject''"] by simp

theorem C8_no_abort_counterexample:
  "length (findAllExecutionPaths (StmtNode (BlockStatement (ifChain 16)))) = 65536
   \<and> map messageId (analyzeExecutionPaths (StmtNode (BlockStatement (ifChain 16)))
        ''resolve'' ''reject'') = replicate 65536 noCallback"
proof
  have sixteen: "Suc 15 = 16" by simp
  show len: "length (findAllExecutionPaths (StmtNode (BlockStatement (ifChain 16)))) = 65536"
    using ifChain_paths [of 15 "[]"] unfolding sixteen by simp
  have "\<forall>p\<in>set (findAllExecutionPaths (StmtNode (BlockStatement (ifChain 16)))).
          countCallbacksInPath p ''resolve'' ''reject'' = 0"
    using ifChain_counts [of 15 "[]" "''resolve''" "''reject''"] unfolding sixteen by simp
  from all_noCallback [OF this] len
  show "map messageId (analyzeExecutionPaths (StmtNode (BlockStatement (ifChain 16)))
        ''resolve'' ''reject'') = replicate 65536 noCallback"
    by (simp add: analyzeExecutionPaths_def)
qed

section \<open>The counter counts every target call, nested functions included\<close>

lemma count_concat:
  "length (filter P (concat (map g xs))) = sum_list (map (\<lambda>x. length (filter P (g x))) xs)"
  by (induction xs) simp_all

lemma isTargetCall_call:
  "isTargetCall r j (ExprNode (CallExpression callee args)) =
     (case callee of Identifier callName \<Rightarrow> callName = r \<or> callName = j | _ \<Rightarrow> False)"
  by (cases callee) simp_all

lemma traverse_counts_target_calls:
  "traverse_expr r j e = length (filter (isTargetCall r j) (descendants_expr e))"
  "traverse_stmt r j s = length (filter (isTargetCall r j) (descendants_stmt s))"
  "traverse_case r j c = length (filter (isTargetCall r j) (descendants_case c))"
proof (induction r j e and r j s and r j c
       rule: traverse_expr_traverse_stmt_traverse_case.induct)
  case (3 r j callee args)
  then show ?case
    by (cases callee) (simp_all add: count_concat cong: map_cong)
next
  case (12 r j b h f)
  have try_block: "sum_list (map (traverse_stmt r j) b) =
      length (filter (isTargetCall r j) (concat (map descendants_stmt b)))"
    using 12(1) by (simp add: count_concat cong: map_cong)
  have handler: "(case h of None \<Rightarrow> 0
      | Some handler \<Rightarrow>
          (case fst handler of None \<Rightarrow> 0 | Some param \<Rightarrow> traverse_expr r j param) +
          sum_list (map (traverse_stmt r j) (snd handler))) =
      length (filter (isTargetCall r j)
        (case h of None \<Rightarrow> []
         | Some handler \<Rightarrow>
             (case fst handler of None \<Rightarrow> [] | Some param \<Rightarrow> descendants_expr param) @
             concat (map descendants_stmt (snd handler))))"
  proof (cases h)
    case None
    then show ?thesis by simp
  next
    case (Some hd)
    have "sum_list (map (traverse_stmt r j) (snd hd)) =
        length (filter (isTargetCall r j) (concat (map descendants_stmt (snd hd))))"
      using 12(3) [OF Some] by (simp add: count_concat cong: map_cong)
    moreover have "(case fst hd of None \<Rightarrow> 0 | Some param \<Rightarrow> traverse_expr r j param) =
        length (filter (isTargetCall r j)
          (case fst hd of None \<Rightarrow> [] | Some param \<Rightarrow> descendants_expr param))"
      using 12(2) [OF Some] by (cases "fst hd") simp_all
    ultimately show ?thesis using Some by simp
  qed
  have finalizer: "(case f of None \<Rightarrow> 0
      | Some finalizer \<Rightarrow> sum_list (map (traverse_stmt r j) finalizer)) =
      length (filter (isTargetCall r j)
        (case f of None \<Rightarrow> [] | Some finalizer \<Rightarrow> concat (map descendants_stmt finalizer)))"
    using 12(4) by (cases f) (simp_all add: count_concat cong: map_cong)
  show ?case
    by (simp only: traverse_stmt.simps descendants_stmt.simps try_block handler finalizer
          filter.simps filter_append length_append list.size isTargetCall.simps if_False)
qed (simp_all add: count_concat cong: map_cong split: option.splits)

text \<open>
  Claim C6. \<^verbatim>\<open>countCallbacksInStatement\<close> counts exactly the call expressions, among the
  node and all its descendants, whose callee is an identifier named as one of the two
  parameters. Nothing is left out under a nested function: the count of a function
  expression or arrow function is the count of its parameters and of its body, and
  \<^verbatim>\<open>setTimeout(() => { r(); }, 100);\<close> counts one.
\<close>

theorem C6_counter_counts_all_target_calls:
  "countCallbacksInStatement n r j = targetCalls r j n
   \<and> countCallbacksInStatement (ExprNode (FunctionExpression params body)) r j =
       sum_list (map (targetCalls r j) (map ExprNode params)) +
       sum_list (map (targetCalls r j) (map StmtNode body))
   \<and> countCallbacksInStatement (ExprNode (ArrowFunctionExpression params body)) r j =
       sum_list (map (targetCalls r j) (map ExprNode params)) +
       sum_list (map (targetCalls r j) (map StmtNode body))
   \<and> countCallbacksInStatement (ExprNode (ArrowFunctionExpr params e)) r j =
       sum_list (map (targetCalls r j) (map ExprNode params)) + targetCalls r j (ExprNode e)
   \<and> countCallbacksInStatement
       (StmtNode (ExpressionStatement (CallExpression (Identifier ''setTimeout'')
          [ArrowFunctionExpression [] [callStmt r], Literal ''100''])))
       r j = (if r = ''setTimeout'' \<or> j = ''setTimeout'' then 2 else 1)"
proof (intro conjI)
  show "countCallbacksInStatement n r j = targetCalls r j n"
    by (cases n) (simp_all add: targetCalls_def traverse_counts_target_calls)
  show "countCallbacksInStatement (ExprNode (FunctionExpression params body)) r j =
       sum_list (map (targetCalls r j) (map ExprNode params)) +
       sum_list (map (targetCalls r j) (map StmtNode body))"
    by (simp add: targetCalls_def traverse_counts_target_calls count_concat comp_def)
  show "countCallbacksInStatement (ExprNode (ArrowFunctionExpression params body)) r j =
       sum_list (map (targetCalls r j) (map ExprNode params)) +
       sum_list (map (targetCalls r j) (map StmtNode body))"
    by (simp add: targetCalls_def traverse_counts_target_calls count_concat comp_def)
  show "countCallbacksInStatement (ExprNode (ArrowFunctionExpr params e)) r j =
       sum_list (map (targetCalls r j) (map ExprNode params)) + targetCalls r j (ExprNode e)"
    by (simp add: targetCalls_def traverse_counts_target_calls count_concat comp_def)
  show "countCallbacksInStatement
       (StmtNode (ExpressionStatement (CallExpression (Identifier ''setTimeout'')
          [ArrowFunctionExpression [] [callStmt r], Literal ''100''])))
       r j = (if r = ''setTimeout'' \<or> j = ''setTimeout'' then 2 else 1)"
    by auto
qed

theorem C6_counter_counts_all_target_calls_witness:
  "countCallbacksInStatement
     (StmtNode (ExpressionStatement (CallExpression (Identifier ''setTimeout'')
        [ArrowFunctionExpression [] [callStmt ''resolve''], Literal ''100''])))
     ''resolve'' ''reject'' = 1
   \<and> targetCalls ''resolve'' ''reject''
     (StmtNode (ExpressionStatement (CallExpression (Identifier ''setTimeout'')
        [ArrowFunctionExpression [] [callStmt ''resolve''], Literal ''100'']))) = 1"
  using C6_counter_counts_all_target_calls
    [of "StmtNode (ExpressionStatement (CallExpression (Identifier ''setTimeout'')
        [ArrowFunctionExpression [] [callStmt ''resolve''], Literal ''100'']))"
        "''resolve''" "''reject''"]
  by simp

end
